theory Spec2Isabelle
  imports Main "HOL-Library.Sublist"
begin

section \<open>Python string primitives used by tools/validate-commit.py\<close>

text \<open>
  A Python 3 \<open>str\<close> is modelled as a \<open>string\<close> (a list of \<open>char\<close>); the HOL character
  with number \<open>n\<close> stands for the code point \<open>n\<close>, so the model covers the code points
  0..255 and follows Python 3's Unicode tables on them. Inputs with code points above
  255 are outside the model.
\<close>

definition py_isspace :: "char \<Rightarrow> bool" where
  \<comment> \<open>\<open>str.isspace\<close> on one code point below 256\<close>
  "py_isspace c = (c \<in> set [CHR 0x09, CHR 0x0A, CHR 0x0B, CHR 0x0C, CHR 0x0D,
     CHR 0x1C, CHR 0x1D, CHR 0x1E, CHR 0x1F, CHR 0x20, CHR 0x85, CHR 0xA0])"

definition py_isdigit_char :: "char \<Rightarrow> bool" where
  \<comment> \<open>\<open>str.isdigit\<close> on one code point below 256: 0-9 and the superscripts 2, 3, 1\<close>
  "py_isdigit_char c = (c \<in> set (''0123456789'' @ [CHR 0xB2, CHR 0xB3, CHR 0xB9]))"

definition isdigit :: "string \<Rightarrow> bool" where
  \<comment> \<open>\<open>s.isdigit()\<close>: false on the empty string\<close>
  "isdigit s = (s \<noteq> [] \<and> list_all py_isdigit_char s)"

definition upper_chars :: string where
  "upper_chars = ''ABCDEFGHIJKLMNOPQRSTUVWXYZ'' @
     [CHR 0xC0, CHR 0xC1, CHR 0xC2, CHR 0xC3, CHR 0xC4, CHR 0xC5, CHR 0xC6, CHR 0xC7,
      CHR 0xC8, CHR 0xC9, CHR 0xCA, CHR 0xCB, CHR 0xCC, CHR 0xCD, CHR 0xCE, CHR 0xCF,
      CHR 0xD0, CHR 0xD1, CHR 0xD2, CHR 0xD3, CHR 0xD4, CHR 0xD5, CHR 0xD6,
      CHR 0xD8, CHR 0xD9, CHR 0xDA, CHR 0xDB, CHR 0xDC, CHR 0xDD, CHR 0xDE]"

definition lower_chars :: string where
  "lower_chars = ''abcdefghijklmnopqrstuvwxyz'' @
     [CHR 0xE0, CHR 0xE1, CHR 0xE2, CHR 0xE3, CHR 0xE4, CHR 0xE5, CHR 0xE6, CHR 0xE7,
      CHR 0xE8, CHR 0xE9, CHR 0xEA, CHR 0xEB, CHR 0xEC, CHR 0xED, CHR 0xEE, CHR 0xEF,
      CHR 0xF0, CHR 0xF1, CHR 0xF2, CHR 0xF3, CHR 0xF4, CHR 0xF5, CHR 0xF6,
      CHR 0xF8, CHR 0xF9, CHR 0xFA, CHR 0xFB, CHR 0xFC, CHR 0xFD, CHR 0xFE]"

definition lower_char :: "char \<Rightarrow> char" where
  "lower_char c = (case map_of (zip upper_chars lower_chars) c of None \<Rightarrow> c | Some d \<Rightarrow> d)"

definition lower :: "string \<Rightarrow> string" where
  \<comment> \<open>\<open>s.lower()\<close>\<close>
  "lower s = map lower_char s"

definition strip :: "string \<Rightarrow> string" where
  \<comment> \<open>\<open>s.strip()\<close>: whitespace removed at both ends\<close>
  "strip s = rev (dropWhile py_isspace (rev (dropWhile py_isspace s)))"

definition rstrip :: "string \<Rightarrow> string \<Rightarrow> string" where
  \<comment> \<open>\<open>s.rstrip(chars)\<close>: trailing characters of the set \<open>chars\<close> removed\<close>
  "rstrip s chars = rev (dropWhile (\<lambda>c. c \<in> set chars) (rev s))"

definition startswith :: "string \<Rightarrow> string \<Rightarrow> bool" where
  "startswith s p = prefix p s"

definition endswith :: "string \<Rightarrow> string \<Rightarrow> bool" where
  "endswith s x = suffix x s"

definition py_in :: "string \<Rightarrow> string \<Rightarrow> bool" where
  \<comment> \<open>\<open>sub in s\<close> on strings: \<open>sub\<close> occurs as a contiguous substring\<close>
  "py_in sub s = sublist sub s"

fun split :: "string \<Rightarrow> char \<Rightarrow> string list" where
  \<comment> \<open>\<open>s.split(sep)\<close> for a one-character separator: never empty\<close>
  "split [] sep = [[]]"
| "split (c # cs) sep =
     (if c = sep then [] # split cs sep
      else (let r = split cs sep in (c # hd r) # tl r))"

fun split_max :: "string \<Rightarrow> char \<Rightarrow> nat \<Rightarrow> string list" where
  \<comment> \<open>\<open>s.split(sep, maxsplit)\<close> for a one-character separator\<close>
  "split_max s sep 0 = [s]"
| "split_max [] sep (Suc n) = [[]]"
| "split_max (c # cs) sep (Suc n) =
     (if c = sep then [] # split_max cs sep n
      else (let r = split_max cs sep (Suc n) in (c # hd r) # tl r))"

definition py_linebreak :: "char \<Rightarrow> bool" where
  \<comment> \<open>the line boundaries of \<open>str.splitlines\<close> below code point 256\<close>
  "py_linebreak c = (c \<in> set [CHR 0x0A, CHR 0x0B, CHR 0x0C, CHR 0x0D,
     CHR 0x1C, CHR 0x1D, CHR 0x1E, CHR 0x85])"

fun splitlines :: "string \<Rightarrow> string list" where
  \<comment> \<open>\<open>s.splitlines(True)\<close>: line ends are kept, CR LF is one boundary\<close>
  "splitlines [] = []"
| "splitlines (c # cs) =
     (if c = CHR 0x0D \<and> cs \<noteq> [] \<and> hd cs = CHR 0x0A
        then [c, CHR 0x0A] # splitlines (tl cs)
      else if py_linebreak c then [c] # splitlines cs
      else (case splitlines cs of [] \<Rightarrow> [[c]] | l # ls \<Rightarrow> (c # l) # ls))"

definition slice_neg :: "string \<Rightarrow> nat \<Rightarrow> nat \<Rightarrow> string" where
  \<comment> \<open>\<open>s[a:-b]\<close> for \<open>b > 0\<close>\<close>
  "slice_neg s a b = drop a (take (length s - b) s)"

section \<open>Output of the program\<close>

datatype event =
    Print string           \<comment> \<open>\<open>print(s)\<close> on standard output\<close>
  | Write_stderr string    \<comment> \<open>\<open>sys.stderr.write(s)\<close>\<close>
  | Run "string list" string  \<comment> \<open>an external command called, with its standard input\<close>

datatype exn =
    OSError string
  | CalledProcessError int string   \<comment> \<open>return code, and the text of the exception\<close>
  | KeyboardInterrupt
  | ValueError
  | IndexError

definition print_git_user_instructions :: "event list" where
  "print_git_user_instructions =
    [Print ''To configure your name and email for git, run:'',
     Print '''',
     Print ''  git config --global user.name \"Your Name\"'',
     Print ''  git config --global user.email \"you@example.com\"'',
     Print '''',
     Print ''After that update the author of your latest commit with:'',
     Print '''',
     Print ''  git commit --amend --reset-author --no-edit'',
     Print '''']"

section \<open>Name and email validators\<close>

definition forbidden_names :: "string list" where
  "forbidden_names = [''unknown'', ''root'', ''user'', ''your name'']"

definition verify_name :: "string \<Rightarrow> bool \<times> event list" where
  "verify_name name0 =
    (let name = strip (lower name0) in
     if name \<in> set forbidden_names then (False, [])
     else if CHR '' '' \<notin> set name
       then (True, Print (''WARNING: name '' @ [CHR 0x27] @ name @ [CHR 0x27]
                          @ '' does not contain a space.'')
                   # print_git_user_instructions)
     else (True, []))"

definition verify_email :: "string \<Rightarrow> bool" where
  "verify_email email0 =
    (let email = strip (lower email0) in
     case split email (CHR ''@'') of
       [user, host] \<Rightarrow>
         (let tld = last (split host (CHR ''.'')) in
          if py_in ''local'' tld then False
          else if isdigit tld then False
          else if endswith host ''.wireshark.org'' then False
          else if host = ''example.com'' then False
          else if py_in ''(none)'' host then False
          else True)
     | _ \<Rightarrow> False)"

section \<open>Subject normalizer\<close>

definition revert_prefix :: string where
  "revert_prefix = ''Revert \"''"

definition revert_suffix :: string where
  "revert_suffix = ''\"''"

function revert_loop :: "string \<Rightarrow> string" where
  \<comment> \<open>the \<open>while\<close> loop of \<open>extract_subject\<close>\<close>
  "revert_loop subject =
     (if startswith subject revert_prefix \<and> endswith subject revert_suffix
      then revert_loop (slice_neg subject (length revert_prefix) (length revert_suffix))
      else subject)"
  by pat_completeness auto
termination
  by (relation "measure length")
     (auto simp: slice_neg_def startswith_def endswith_def revert_prefix_def revert_suffix_def
           prefix_def)

declare revert_loop.simps [simp del]

definition extract_subject :: "string \<Rightarrow> string" where
  "extract_subject subject0 = revert_loop (rstrip subject0 [CHR 0x0D, CHR 0x0A])"

section \<open>Body validator\<close>

text \<open>
  The two external commands and the diff library are not part of the script; they are
  parameters of the model. An external command either returns its standard output or
  raises; \<open>unified_diff\<close> stands for \<open>difflib.unified_diff\<close> with the two fixed file
  names, and \<open>file_is_py\<close> for the test \<open>__file__.endswith('.py')\<close>. Every function
  returns its result, or the exception it raises, together with what it has printed
  up to then. KeyboardInterrupt can reach the script at any moment; the model lets it
  arrive at the two external commands, where the script waits.
\<close>

record env =
  git_show :: "string list \<Rightarrow> exn + string"
  git_stripspace :: "string \<Rightarrow> exn + string"
  unified_diff :: "string list \<Rightarrow> string list \<Rightarrow> string list"
  file_is_py :: bool

definition msg_blank_line :: string where
  "msg_blank_line = ''ERROR: missing blank line after the first subject line.''"

definition msg_too_long :: string where
  "msg_too_long = ''Warning: keep lines in the commit message under 80 characters.''"

definition msg_format :: string where
  "msg_format = concat
    [''\<newline>'',
     ''Please rewrite your commit message to our standards, matching this format:\<newline>'',
     ''\<newline>'',
     ''    component: a very brief summary of the change\<newline>'',
     ''\<newline>'',
     ''    A commit message should start with a brief summary, followed by a single\<newline>'',
     ''    blank line and an optional longer description. If the change is specific to\<newline>'',
     ''    a single protocol, start the summary line with the abbreviated name of the\<newline>'',
     ''    protocol and a colon.\<newline>'',
     ''\<newline>'',
     ''    Use paragraphs to improve readability. Limit each line to 80 characters.\<newline>'',
     ''\<newline>'']"

definition msg_bug :: string where
  "msg_bug = concat
    [''\<newline>'',
     ''To close an issue, use \"Closes #1234\" or \"Fixes #1234\" instead of \"Bug: 1234\".\<newline>'',
     ''To reference an issue, use \"related to #1234\" instead of \"Ping-Bug: 1234\". See\<newline>'',
     ''https://docs.gitlab.com/ee/user/project/issues/managing_issues.html#closing-issues-automatically\<newline>'',
     ''for details.\<newline>'']"

definition stripspace_cmd :: "string list" where
  "stripspace_cmd = [''git'', ''stripspace'']"

definition second_line_nonblank :: "string list \<Rightarrow> bool" where
  \<comment> \<open>\<open>len(old_lines) >= 2 and old_lines[1].strip()\<close>\<close>
  "second_line_nonblank old_lines = (length old_lines \<ge> 2 \<and> strip (old_lines ! 1) \<noteq> [])"

definition has_bug_line :: "string list \<Rightarrow> bool" where
  \<comment> \<open>\<open>any(line.startswith('Bug:') or line.startswith('Ping-Bug:') for line in old_lines)\<close>\<close>
  "has_bug_line old_lines =
     list_ex (\<lambda>line. startswith line ''Bug:'' \<or> startswith line ''Ping-Bug:'') old_lines"

definition mark_trailing :: "string \<Rightarrow> string" where
  \<comment> \<open>the comment put before a diff line whose second-to-last character is a space\<close>
  "mark_trailing line =
     (if length line > 2 \<and> py_isspace (line ! (length line - 2))
      then ''# NOTE: trailing space on the next line\<newline>'' @ line else line)"

definition subject_too_long :: "string list \<Rightarrow> bool" where
  \<comment> \<open>\<open>len(extract_subject(old_lines[0])) > 80\<close>, read on a list that is not empty\<close>
  "subject_too_long old_lines = (length (extract_subject (old_lines ! 0)) > 80)"

definition is_good :: "string list \<Rightarrow> bool" where
  \<comment> \<open>the variable \<open>is_good\<close> after the two checks (line 119)\<close>
  "is_good old_lines = (\<not> second_line_nonblank old_lines \<and> \<not> subject_too_long old_lines)"

definition check_output :: "string list \<Rightarrow> event list" where
  \<comment> \<open>what lines 111 to 132 print\<close>
  "check_output old_lines =
     (if second_line_nonblank old_lines then [Print msg_blank_line] else [])
     @ (if subject_too_long old_lines then [Print msg_too_long] else [])
     @ (if \<not> is_good old_lines then [Print msg_format] else [])"

definition diff_report :: "env \<Rightarrow> string list \<Rightarrow> string list \<Rightarrow> event list" where
  \<comment> \<open>what lines 150 to 163 print\<close>
  "diff_report E old_lines new_lines =
     [Print ''The commit message does not follow our standards.'',
      Print ''Please rewrite it (there are likely whitespace issues):'',
      Print [],
      Print (concat (map mark_trailing (unified_diff E old_lines new_lines)))]"

definition verify_body :: "env \<Rightarrow> string \<Rightarrow> (exn + bool) \<times> event list" where
  \<comment> \<open>on an empty list the test of line 111 is false and \<open>old_lines[0]\<close> raises\<close>
  "verify_body E body0 =
    (let old_lines = splitlines body0 in
     if old_lines = [] then (Inl IndexError, [])
     else if has_bug_line old_lines
       then (Inr False, check_output old_lines @ [Write_stderr msg_bug])
     else
       (let out = check_output old_lines @ [Run stripspace_cmd body0] in
        case git_stripspace E body0 of
          Inl (OSError ex) \<Rightarrow>
            (Inr (is_good old_lines),
             out @ [Print (''Warning: unable to invoke git stripspace: '' @ ex)])
        | Inl other \<Rightarrow> (Inl other, out)
        | Inr newbody \<Rightarrow>
            if newbody \<noteq> body0
            then (Inr False, out @ diff_report E old_lines (splitlines newbody))
            else (Inr (is_good old_lines), out)))"

section \<open>Commit fetcher and driver\<close>

record commit_info =
  ci_abbrev :: string
  ci_author_name :: string
  ci_author_email :: string
  ci_body :: string

definition parse_output :: "string \<Rightarrow> exn + commit_info" where
  \<comment> \<open>lines 175 to 177 of \<open>main\<close>: unpacking fewer than four parts raises ValueError\<close>
  "parse_output output0 =
    (let output = (if endswith output0 ''\<newline>\<newline>'' then butlast output0 else output0)
     in case split_max output (CHR ''\<newline>'') 3 of
          [a, n, e, b] \<Rightarrow>
            Inr \<lparr>ci_abbrev = a, ci_author_name = n, ci_author_email = e, ci_body = b\<rparr>
        | _ \<Rightarrow> Inl ValueError)"

definition show_cmd :: "string \<Rightarrow> string list" where
  "show_cmd commit =
     [''git'', ''show'', ''--no-patch'', ''--format=%h%n%an%n%ae%n%B'', commit, ''--'']"

definition fetch_commit :: "env \<Rightarrow> string \<Rightarrow> (exn + commit_info) \<times> event list" where
  \<comment> \<open>lines 171 to 177 of \<open>main\<close>\<close>
  "fetch_commit E commit =
    (case git_show E (show_cmd commit) of
       Inl ex \<Rightarrow> (Inl ex, [Run (show_cmd commit) []])
     | Inr output \<Rightarrow> (parse_output output, [Run (show_cmd commit) []]))"

definition commit_arg :: "string option \<Rightarrow> string" where
  \<comment> \<open>\<open>parser.parse_args().commit\<close>: the optional positional argument, default HEAD\<close>
  "commit_arg arg = (case arg of None \<Rightarrow> ''HEAD'' | Some c \<Rightarrow> c)"

definition main :: "env \<Rightarrow> string option \<Rightarrow> (exn + int) \<times> event list" where
  "main E arg =
    (let commit = commit_arg arg in
     case fetch_commit E commit of
       (Inl ex, out0) \<Rightarrow> (Inl ex, out0)
     | (Inr ci, out0) \<Rightarrow>
        (let subject = hd (split_max (ci_body ci) (CHR ''\<newline>'') 1);
             out1 = out0 @ (if file_is_py E
                      then [Print (''Checking commit: '' @ ci_abbrev ci @ '' '' @ subject)]
                      else []);
             name_ok = fst (verify_name (ci_author_name ci));
             out2 = out1 @ snd (verify_name (ci_author_name ci))
                    @ (if \<not> name_ok
                       then [Print (''Disallowed author name: '' @ ci_author_name ci)] else []);
             exit_code1 = (if \<not> name_ok then 1 else 0 :: int);
             email_ok = verify_email (ci_author_email ci);
             out3 = out2 @ (if \<not> email_ok
                       then [Print (''Disallowed author email address: '' @ ci_author_email ci)]
                       else []);
             exit_code2 = (if \<not> email_ok then 1 else exit_code1);
             out4 = out3 @ (if exit_code2 \<noteq> 0 then print_git_user_instructions else [])
         in case verify_body E (ci_body ci) of
              (Inl ex, out_b) \<Rightarrow> (Inl ex, out4 @ out_b)
            | (Inr body_ok, out_b) \<Rightarrow>
                (Inr (if \<not> body_ok then 1 else exit_code2), out4 @ out_b)))"

datatype outcome =
    Exit int        \<comment> \<open>\<open>sys.exit(n)\<close>\<close>
  | Traceback exn   \<comment> \<open>an exception that nothing catches\<close>

definition run_script :: "env \<Rightarrow> string option \<Rightarrow> outcome \<times> event list" where
  \<comment> \<open>the block under \<open>if __name__ == '__main__'\<close>\<close>
  "run_script E arg =
    (case main E arg of
       (Inr code, out) \<Rightarrow> (Exit code, out)
     | (Inl (CalledProcessError rc txt), out) \<Rightarrow> (Exit rc, out @ [Print (''\<newline>'' @ txt)])
     | (Inl KeyboardInterrupt, out) \<Rightarrow> (Exit 130, out)
     | (Inl other, out) \<Rightarrow> (Traceback other, out))"

section \<open>Example environments\<close>

text \<open>Concrete collaborators on which the theorems below are instantiated.\<close>

definition stripspace_id :: "string \<Rightarrow> exn + string" where
  \<comment> \<open>a normalizer that finds nothing to change\<close>
  "stripspace_id s = Inr s"

definition stripspace_newline :: "string \<Rightarrow> exn + string" where
  \<comment> \<open>a normalizer that leaves exactly one newline at the end\<close>
  "stripspace_newline s = Inr (rstrip s ''\<newline>'' @ ''\<newline>'')"

definition stripspace_missing :: "string \<Rightarrow> exn + string" where
  \<comment> \<open>the command cannot be started\<close>
  "stripspace_missing s = Inl (OSError ''No such file or directory'')"

definition stripspace_raises :: "exn \<Rightarrow> string \<Rightarrow> exn + string" where
  "stripspace_raises ex s = Inl ex"

definition diff_stub :: "string list \<Rightarrow> string list \<Rightarrow> string list" where
  "diff_stub old new = []"

definition show_fixed :: "string \<Rightarrow> string list \<Rightarrow> exn + string" where
  \<comment> \<open>the query prints the given text, whatever the commit\<close>
  "show_fixed output cmd = Inr output"

definition show_raises :: "exn \<Rightarrow> string list \<Rightarrow> exn + string" where
  "show_raises ex cmd = Inl ex"

definition example_env ::
  "(string list \<Rightarrow> exn + string) \<Rightarrow> (string \<Rightarrow> exn + string) \<Rightarrow> env" where
  "example_env sh st =
     \<lparr>git_show = sh, git_stripspace = st, unified_diff = diff_stub, file_is_py = True\<rparr>"

definition out_jdoe :: string where
  "out_jdoe = ''abc1234\<newline>jdoe\<newline>dev@realmail.org\<newline>fix: a bug\<newline>\<newline>''"

definition out_root :: string where
  "out_root = ''abc1234\<newline>root\<newline>a@b.local\<newline>fix: a bug\<newline>\<newline>''"

definition out_root_empty :: string where
  \<comment> \<open>a commit by \<open>root\<close> with a local address and an empty message\<close>
  "out_root_empty = ''abc1234\<newline>root\<newline>a@b.local\<newline>\<newline>''"

definition out_empty_body :: string where
  "out_empty_body = ''abc1234\<newline>Jane Doe\<newline>dev@realmail.org\<newline>\<newline>''"

definition body_bug :: string where
  "body_bug = ''Bug: 1234\<newline>second line''"

definition line_revert90 :: string where
  \<comment> \<open>90 characters: a revert of a revert of a 72-character subject\<close>
  "line_revert90 = ''Revert \"Revert \"'' @ replicate 72 (CHR ''a'') @ ''\"\"''"

definition body_revert90 :: string where
  "body_revert90 = line_revert90 @ ''\<newline>''"

definition body_plain90 :: string where
  "body_plain90 = replicate 90 (CHR ''a'') @ ''\<newline>''"

definition body_two_lines :: string where
  "body_two_lines = ''fix: a bug\<newline>no blank line before this\<newline>''"

definition body_good :: string where
  "body_good = ''fix: a bug\<newline>\<newline>A longer description.\<newline>''"

definition env_ok :: env where
  \<comment> \<open>a commit by \<open>jdoe\<close> with a well-formed message\<close>
  "env_ok = example_env (show_fixed out_jdoe) stripspace_newline"

definition env_root :: env where
  \<comment> \<open>a commit by \<open>root\<close> with a local address and a well-formed message\<close>
  "env_root = example_env (show_fixed out_root) stripspace_newline"

definition env_root_empty :: env where
  "env_root_empty = example_env (show_fixed out_root_empty) stripspace_newline"

definition env_empty_body :: env where
  \<comment> \<open>a commit with an empty message\<close>
  "env_empty_body = example_env (show_fixed out_empty_body) stripspace_newline"

definition env_missing :: env where
  \<comment> \<open>\<open>git stripspace\<close> cannot be started\<close>
  "env_missing = example_env (show_fixed out_jdoe) stripspace_missing"

definition env_bad_commit :: env where
  \<comment> \<open>the query fails with exit code 128\<close>
  "env_bad_commit = example_env
     (show_raises (CalledProcessError 128 ''Command returned non-zero exit status 128.''))
     stripspace_newline"

definition env_interrupt_show :: env where
  "env_interrupt_show = example_env (show_raises KeyboardInterrupt) stripspace_newline"

definition env_interrupt_stripspace :: env where
  "env_interrupt_stripspace =
     example_env (show_fixed out_jdoe) (stripspace_raises KeyboardInterrupt)"

section \<open>Facts about the string primitives\<close>

lemma split_nonempty: "split s c \<noteq> []"
  by (induction s) (auto simp: Let_def)

lemma split_no_sep: "c \<notin> set s \<Longrightarrow> split s c = [s]"
  by (induction s) (auto simp: Let_def)

lemma split_append_sep: "c \<notin> set u \<Longrightarrow> split (u @ c # h) c = u # split h c"
  by (induction u) (auto simp: Let_def)

lemma split_one_iff: "split s c = [h] \<longleftrightarrow> (s = h \<and> c \<notin> set h)"
proof
  show "split s c = [h] \<Longrightarrow> s = h \<and> c \<notin> set h"
  proof (induction s arbitrary: h)
    case Nil
    then show ?case by simp
  next
    case (Cons x xs)
    show ?case
    proof (cases "x = c")
      case True
      with Cons.prems show ?thesis by (simp add: split_nonempty)
    next
      case False
      with Cons.prems have h: "h = x # hd (split xs c)" and t: "tl (split xs c) = []"
        by (simp_all add: Let_def)
      from t split_nonempty[of xs c] have "split xs c = [hd (split xs c)]"
        by (cases "split xs c") simp_all
      from Cons.IH[OF this] have "hd (split xs c) = xs" and "c \<notin> set xs"
        by metis+
      with h False show ?thesis by auto
    qed
  qed
next
  show "s = h \<and> c \<notin> set h \<Longrightarrow> split s c = [h]"
    by (simp add: split_no_sep)
qed

lemma split_two_iff:
  "split s c = [u, h] \<longleftrightarrow> (s = u @ c # h \<and> c \<notin> set u \<and> c \<notin> set h)"
proof
  show "split s c = [u, h] \<Longrightarrow> s = u @ c # h \<and> c \<notin> set u \<and> c \<notin> set h"
  proof (induction s arbitrary: u)
    case Nil
    then show ?case by simp
  next
    case (Cons x xs)
    show ?case
    proof (cases "x = c")
      case True
      with Cons.prems have "u = []" and "split xs c = [h]" by simp_all
      with True show ?thesis by (simp add: split_one_iff)
    next
      case False
      with Cons.prems have u: "u = x # hd (split xs c)" and t: "tl (split xs c) = [h]"
        by (simp_all add: Let_def)
      from t split_nonempty[of xs c] have "split xs c = [hd (split xs c), h]"
        by (cases "split xs c") simp_all
      from Cons.IH[OF this] u False show ?thesis by simp
    qed
  qed
next
  show "s = u @ c # h \<and> c \<notin> set u \<and> c \<notin> set h \<Longrightarrow> split s c = [u, h]"
    by (simp add: split_append_sep split_no_sep)
qed

lemma last_split: "last (split s c) = rev (takeWhile (\<lambda>x. x \<noteq> c) (rev s))"
proof (induction s)
  case Nil
  then show ?case by simp
next
  case (Cons x xs)
  show ?case
  proof (cases "c \<in> set xs")
    case True
    then have tw: "takeWhile (\<lambda>x. x \<noteq> c) (rev xs @ [x]) = takeWhile (\<lambda>x. x \<noteq> c) (rev xs)"
      by (intro takeWhile_append1[of c]) simp_all
    have "tl (split xs c) \<noteq> []"
    proof
      assume "tl (split xs c) = []"
      with split_nonempty[of xs c] have "split xs c = [hd (split xs c)]"
        by (cases "split xs c") simp_all
      with True show False by (metis split_one_iff)
    qed
    then have "last (split (x # xs) c) = last (split xs c)"
      by (cases "split xs c") (auto simp: Let_def)
    with Cons.IH tw show ?thesis by simp
  next
    case False
    then have tw: "takeWhile (\<lambda>x. x \<noteq> c) (rev xs @ [x]) = rev xs @ takeWhile (\<lambda>x. x \<noteq> c) [x]"
      by (intro takeWhile_append2) auto
    from False have "split xs c = [xs]" by (rule split_no_sep)
    with tw show ?thesis by (auto simp: Let_def)
  qed
qed

lemma rstrip_decomp: "\<exists>nl. s = rstrip s cs @ nl \<and> set nl \<subseteq> set cs"
proof -
  let ?P = "\<lambda>c. c \<in> set cs"
  have "rev (dropWhile ?P (rev s)) @ rev (takeWhile ?P (rev s))
          = rev (takeWhile ?P (rev s) @ dropWhile ?P (rev s))"
    by (simp only: rev_append)
  also have "\<dots> = s" by simp
  finally have "s = rstrip s cs @ rev (takeWhile ?P (rev s))" by (simp add: rstrip_def)
  moreover have "set (rev (takeWhile ?P (rev s))) \<subseteq> set cs"
    by (auto dest: set_takeWhileD)
  ultimately show ?thesis by blast
qed

lemma rstrip_last: "rstrip s cs \<noteq> [] \<Longrightarrow> last (rstrip s cs) \<notin> set cs"
  using hd_dropWhile[of "\<lambda>c. c \<in> set cs" "rev s"] by (simp add: rstrip_def last_rev)

lemma rstrip_append: "set nl \<subseteq> set cs \<Longrightarrow> rstrip (u @ nl) cs = rstrip u cs"
  by (auto simp: rstrip_def intro!: dropWhile_append2)

lemma rstrip_id: "u = [] \<or> last u \<notin> set cs \<Longrightarrow> rstrip u cs = u"
proof -
  assume a: "u = [] \<or> last u \<notin> set cs"
  have "dropWhile (\<lambda>c. c \<in> set cs) (rev u) = rev u"
    using a by (cases "rev u") (auto simp: last_rev[symmetric] simp del: last_rev)
  then show ?thesis by (simp add: rstrip_def)
qed

lemma revert_loop_unwrapped:
  "\<not> (prefix revert_prefix u \<and> suffix revert_suffix u) \<Longrightarrow> revert_loop u = u"
  by (subst revert_loop.simps) (auto simp: startswith_def endswith_def)

lemma revert_prefix_length: "length revert_prefix = 8"
  by (simp add: revert_prefix_def)

lemma revert_suffix_length: "length revert_suffix = 1"
  by (simp add: revert_suffix_def)

lemma revert_loop_wrapped:
  "prefix revert_prefix u \<Longrightarrow> suffix revert_suffix u \<Longrightarrow>
   revert_loop u = revert_loop (drop 8 (butlast u))"
  by (subst revert_loop.simps)
     (simp add: startswith_def endswith_def slice_neg_def butlast_conv_take
        revert_prefix_length revert_suffix_length)

lemma revert_loop_result:
  "\<not> (prefix revert_prefix (revert_loop u) \<and> suffix revert_suffix (revert_loop u))"
proof (induction u rule: revert_loop.induct)
  case (1 s)
  show ?case
  proof (cases "startswith s revert_prefix \<and> endswith s revert_suffix")
    case True
    then have "revert_loop s =
        revert_loop (slice_neg s (length revert_prefix) (length revert_suffix))"
      by (subst revert_loop.simps) simp
    with "1.IH"[OF True] show ?thesis by simp
  next
    case False
    then have "revert_loop s = s" by (subst revert_loop.simps) auto
    with False show ?thesis by (simp add: startswith_def endswith_def)
  qed
qed

lemma revert_loop_wrap: "revert_loop (revert_prefix @ m @ revert_suffix) = revert_loop m"
proof -
  have "drop 8 (butlast (revert_prefix @ m @ revert_suffix)) = m"
    by (simp add: revert_prefix_def revert_suffix_def butlast_append)
  with revert_loop_wrapped[of "revert_prefix @ m @ revert_suffix"] show ?thesis
    by (simp add: suffix_def)
qed


section \<open>Email validator\<close>

lemma verify_email_two:
  assumes "split (strip (lower email)) (CHR ''@'') = [user, host]"
  shows "verify_email email \<longleftrightarrow>
     \<not> sublist ''local'' (last (split host (CHR ''.'')))
   \<and> \<not> isdigit (last (split host (CHR ''.'')))
   \<and> \<not> suffix ''.wireshark.org'' host \<and> host \<noteq> ''example.com''
   \<and> \<not> sublist ''(none)'' host"
  using assms by (simp add: verify_email_def Let_def py_in_def endswith_def)

lemma verify_email_not_two:
  assumes "\<And>user host. split (strip (lower email)) (CHR ''@'') \<noteq> [user, host]"
  shows "\<not> verify_email email"
  using assms by (auto simp: verify_email_def Let_def split: list.splits)

lemma verify_email_char:
  "verify_email email \<longleftrightarrow>
    (\<exists>user host. strip (lower email) = user @ ''@'' @ host
       \<and> CHR ''@'' \<notin> set user \<and> CHR ''@'' \<notin> set host
       \<and> (let tld = rev (takeWhile (\<lambda>c. c \<noteq> CHR ''.'') (rev host)) in
            \<not> sublist ''local'' tld
          \<and> \<not> (tld \<noteq> [] \<and> (\<forall>c \<in> set tld. py_isdigit_char c))
          \<and> \<not> suffix ''.wireshark.org'' host
          \<and> host \<noteq> ''example.com''
          \<and> \<not> sublist ''(none)'' host))"
  (is "?L \<longleftrightarrow> (\<exists>user host. ?R user host)")
proof (cases "\<exists>u h. split (strip (lower email)) (CHR ''@'') = [u, h]")
  case True
  then obtain u h where sp: "split (strip (lower email)) (CHR ''@'') = [u, h]" by blast
  have uniq: "u' = u \<and> h' = h" if "?R u' h'" for u' h'
  proof -
    from that have "split (strip (lower email)) (CHR ''@'') = [u', h']"
      by (simp add: split_two_iff)
    with sp show ?thesis by simp
  qed
  have "?L \<longleftrightarrow> ?R u h"
    using sp verify_email_two[OF sp]
    by (simp add: split_two_iff last_split isdigit_def list_all_iff Let_def)
  with uniq show ?thesis by blast
next
  case False
  then have "\<not> ?L" by (intro verify_email_not_two) blast
  moreover have "\<not> ?R u h" for u h
  proof
    assume "?R u h"
    then have "split (strip (lower email)) (CHR ''@'') = [u, h]"
      by (simp add: split_two_iff)
    with False show False by blast
  qed
  ultimately show ?thesis by blast
qed

text \<open>
  Claim C1. \<open>verify_email\<close> accepts an address exactly when, lower-cased and trimmed, it
  has the form \<open>user@host\<close> with exactly one \<open>@\<close>, and the top-level label of the host
  (the part after its last dot, the whole host if there is none) neither contains
  \<open>local\<close> nor consists entirely of digits, and the host neither ends with
  \<open>.wireshark.org\<close>, nor is \<open>example.com\<close>, nor contains \<open>(none)\<close>. A label consists
  entirely of digits when it is not empty and each character is a digit, as
  \<open>str.isdigit\<close> has it. The seven addresses of the claim are rejected or accepted as it
  says.
\<close>

theorem verify_email_spec:
  "(verify_email email \<longleftrightarrow>
    (\<exists>user host. strip (lower email) = user @ ''@'' @ host
       \<and> CHR ''@'' \<notin> set user \<and> CHR ''@'' \<notin> set host
       \<and> (let tld = rev (takeWhile (\<lambda>c. c \<noteq> CHR ''.'') (rev host)) in
            \<not> sublist ''local'' tld
          \<and> \<not> (tld \<noteq> [] \<and> (\<forall>c \<in> set tld. py_isdigit_char c))
          \<and> \<not> suffix ''.wireshark.org'' host
          \<and> host \<noteq> ''example.com''
          \<and> \<not> sublist ''(none)'' host)))
   \<and> \<not> verify_email ''x@code.wireshark.org''
   \<and> \<not> verify_email ''a@example.com''
   \<and> \<not> verify_email ''u@host.local''
   \<and> \<not> verify_email ''u@192.168.1.1''
   \<and> \<not> verify_email ''u@host.(none)''
   \<and> \<not> verify_email ''noatsign''
   \<and> verify_email ''dev@realmail.org''"
proof -
  have e1: "\<not> verify_email ''x@code.wireshark.org''" by code_simp
  have e2: "\<not> verify_email ''a@example.com''" by code_simp
  have e3: "\<not> verify_email ''u@host.local''" by code_simp
  have e4: "\<not> verify_email ''u@192.168.1.1''" by code_simp
  have e5: "\<not> verify_email ''u@host.(none)''" by code_simp
  have e6: "\<not> verify_email ''noatsign''" by code_simp
  have e7: "verify_email ''dev@realmail.org''" by code_simp
  from verify_email_char[of email] e1 e2 e3 e4 e5 e6 e7 show ?thesis by blast
qed

theorem verify_email_spec_witness:
  "strip (lower ''Dev@RealMail.org '') = ''dev'' @ ''@'' @ ''realmail.org''
   \<and> verify_email ''Dev@RealMail.org ''"
proof -
  have s: "strip (lower ''Dev@RealMail.org '') = ''dev'' @ ''@'' @ ''realmail.org''"
    by code_simp
  have t: "rev (takeWhile (\<lambda>c. c \<noteq> CHR ''.'') (rev ''realmail.org'')) = ''org''"
    by simp
  have "\<exists>user host. strip (lower ''Dev@RealMail.org '') = user @ ''@'' @ host
       \<and> CHR ''@'' \<notin> set user \<and> CHR ''@'' \<notin> set host
       \<and> (let tld = rev (takeWhile (\<lambda>c. c \<noteq> CHR ''.'') (rev host)) in
            \<not> sublist ''local'' tld
          \<and> \<not> (tld \<noteq> [] \<and> (\<forall>c \<in> set tld. py_isdigit_char c))
          \<and> \<not> suffix ''.wireshark.org'' host
          \<and> host \<noteq> ''example.com''
          \<and> \<not> sublist ''(none)'' host)"
    unfolding s
    by (rule exI[of _ "''dev''"], rule exI[of _ "''realmail.org''"])
       (simp add: t sublist_code suffix_to_prefix py_isdigit_char_def)
  with verify_email_spec[of "''Dev@RealMail.org ''"] s show ?thesis by blast
qed

section \<open>Name validator\<close>

text \<open>
  Claim C5. \<open>verify_name\<close> returns false exactly when the name, lower-cased and trimmed,
  is one of \<open>unknown\<close>, \<open>root\<close>, \<open>user\<close>, \<open>your name\<close>. The warning about a missing
  space is printed exactly for an accepted name without a space, so it never changes
  the result: \<open>jdoe\<close> is accepted with the warning, \<open>Jane Doe\<close> without any output.
\<close>

theorem verify_name_denylist:
  "fst (verify_name n) = (strip (lower n) \<notin> {''unknown'', ''root'', ''user'', ''your name''})
   \<and> (snd (verify_name n) \<noteq> [] \<longleftrightarrow> fst (verify_name n) \<and> CHR '' '' \<notin> set (strip (lower n)))
   \<and> verify_name ''jdoe'' =
       (True, Print ''WARNING: name 'jdoe' does not contain a space.''
              # print_git_user_instructions)
   \<and> verify_name ''Jane Doe'' = (True, [])"
proof -
  have a: "fst (verify_name n) = (strip (lower n) \<notin> {''unknown'', ''root'', ''user'', ''your name''})"
    by (simp add: verify_name_def Let_def forbidden_names_def)
  have b: "snd (verify_name n) \<noteq> [] \<longleftrightarrow> fst (verify_name n) \<and> CHR '' '' \<notin> set (strip (lower n))"
    by (simp add: verify_name_def Let_def)
  have c: "verify_name ''jdoe'' =
       (True, Print ''WARNING: name 'jdoe' does not contain a space.''
              # print_git_user_instructions)"
    by code_simp
  have d: "verify_name ''Jane Doe'' = (True, [])"
    by code_simp
  from a b c d show ?thesis by blast
qed

theorem verify_name_denylist_witness:
  "\<not> fst (verify_name '' USER '') \<and> fst (verify_name ''jdoe'') \<and> snd (verify_name ''jdoe'') \<noteq> []"
proof -
  have a: "strip (lower '' USER '') = ''user''" by code_simp
  have b: "strip (lower ''jdoe'') = ''jdoe''" by code_simp
  show ?thesis
    using verify_name_denylist[of "'' USER ''"] verify_name_denylist[of "''jdoe''"] a b
    by simp
qed

section \<open>Subject normalizer: properties\<close>

text \<open>
  Claim C6. \<open>extract_subject\<close> first removes the trailing CR and LF characters (what
  is left is a prefix of the input that does not end in CR or LF), then runs the loop:
  a string that starts with \<open>Revert "\<close> and ends with \<open>"\<close> loses both, and the loop goes
  on with the rest. The result never starts with \<open>Revert "\<close> and ends with \<open>"\<close> at once;
  a subject wrapped twice, with any trailing line end, comes back as the original
  text when that text is not itself wrapped; an input that has no wrapper once its
  line end is removed is returned with only the line end removed.
\<close>

theorem extract_subject_unwraps:
  "(\<exists>nl. s = rstrip s [CHR 0x0D, CHR 0x0A] @ nl \<and> set nl \<subseteq> {CHR 0x0D, CHR 0x0A})
   \<and> (rstrip s [CHR 0x0D, CHR 0x0A] \<noteq> [] \<longrightarrow>
        last (rstrip s [CHR 0x0D, CHR 0x0A]) \<notin> {CHR 0x0D, CHR 0x0A})
   \<and> extract_subject s = revert_loop (rstrip s [CHR 0x0D, CHR 0x0A])
   \<and> (prefix ''Revert \"'' u \<and> suffix ''\"'' u \<longrightarrow>
        revert_loop u = revert_loop (drop 8 (butlast u)))
   \<and> revert_loop (''Revert \"'' @ m @ ''\"'') = revert_loop m
   \<and> \<not> (prefix ''Revert \"'' (extract_subject s) \<and> suffix ''\"'' (extract_subject s))
   \<and> (\<not> (prefix ''Revert \"'' t \<and> suffix ''\"'' t) \<and> set nl' \<subseteq> {CHR 0x0D, CHR 0x0A} \<longrightarrow>
        extract_subject (''Revert \"'' @ ''Revert \"'' @ t @ ''\"'' @ ''\"'' @ nl') = t)
   \<and> (\<not> (prefix ''Revert \"'' (rstrip s [CHR 0x0D, CHR 0x0A])
          \<and> suffix ''\"'' (rstrip s [CHR 0x0D, CHR 0x0A])) \<longrightarrow>
        extract_subject s = rstrip s [CHR 0x0D, CHR 0x0A])"
proof -
  let ?crlf = "[CHR 0x0D, CHR 0x0A]"
  have c1: "\<exists>nl. s = rstrip s ?crlf @ nl \<and> set nl \<subseteq> {CHR 0x0D, CHR 0x0A}"
    using rstrip_decomp[of s ?crlf] by simp
  have c2: "rstrip s ?crlf \<noteq> [] \<longrightarrow> last (rstrip s ?crlf) \<notin> {CHR 0x0D, CHR 0x0A}"
    using rstrip_last[of s ?crlf] by simp
  have c3: "extract_subject s = revert_loop (rstrip s ?crlf)"
    by (simp add: extract_subject_def)
  have c4: "prefix ''Revert \"'' u \<and> suffix ''\"'' u \<longrightarrow>
        revert_loop u = revert_loop (drop 8 (butlast u))"
    using revert_loop_wrapped[of u] by (simp add: revert_prefix_def revert_suffix_def)
  have c5: "revert_loop (''Revert \"'' @ m @ ''\"'') = revert_loop m"
    using revert_loop_wrap[of m] by (simp add: revert_prefix_def revert_suffix_def)
  have c6: "\<not> (prefix ''Revert \"'' (extract_subject s) \<and> suffix ''\"'' (extract_subject s))"
    using revert_loop_result[of "rstrip s ?crlf"]
    by (simp add: extract_subject_def revert_prefix_def revert_suffix_def)
  have c7: "extract_subject (''Revert \"'' @ ''Revert \"'' @ t @ ''\"'' @ ''\"'' @ nl') = t"
    if nw: "\<not> (prefix ''Revert \"'' t \<and> suffix ''\"'' t)"
      and nl: "set nl' \<subseteq> {CHR 0x0D, CHR 0x0A}"
  proof -
    let ?w = "revert_prefix @ (revert_prefix @ t @ revert_suffix) @ revert_suffix"
    have "rstrip (?w @ nl') ?crlf = rstrip ?w ?crlf"
      using nl by (intro rstrip_append) simp
    also have "\<dots> = ?w"
      by (intro rstrip_id) (simp add: revert_suffix_def)
    finally have "extract_subject (?w @ nl') = revert_loop ?w"
      by (simp add: extract_subject_def)
    also have "\<dots> = revert_loop t"
      by (simp only: revert_loop_wrap)
    also have "\<dots> = t"
      using nw by (intro revert_loop_unwrapped) (simp add: revert_prefix_def revert_suffix_def)
    finally show ?thesis by (simp add: revert_prefix_def revert_suffix_def)
  qed
  have c8: "\<not> (prefix ''Revert \"'' (rstrip s ?crlf) \<and> suffix ''\"'' (rstrip s ?crlf)) \<longrightarrow>
        extract_subject s = rstrip s ?crlf"
    using revert_loop_unwrapped[of "rstrip s ?crlf"]
    by (simp add: extract_subject_def revert_prefix_def revert_suffix_def)
  from c1 c2 c3 c4 c5 c6 c7 c8 show ?thesis by blast
qed

theorem extract_subject_unwraps_witness:
  "extract_subject ''Revert \"Revert \"fix: bug\"\"\<newline>'' = ''fix: bug''
   \<and> extract_subject ''fix: bug\<newline>'' = ''fix: bug''"
proof -
  note t = extract_subject_unwraps[of "''fix: bug\<newline>''" "''Revert \"fix: bug\"''"
      "''fix: bug''" "''fix: bug''" "''\<newline>''"]
  have h1: "\<not> (prefix ''Revert \"'' ''fix: bug'' \<and> suffix ''\"'' ''fix: bug'')
      \<and> set ''\<newline>'' \<subseteq> {CHR 0x0D, CHR 0x0A}"
    by simp
  have r: "rstrip ''fix: bug\<newline>'' [CHR 0x0D, CHR 0x0A] = ''fix: bug''"
    by (simp add: rstrip_def)
  have h2: "\<not> (prefix ''Revert \"'' (rstrip ''fix: bug\<newline>'' [CHR 0x0D, CHR 0x0A])
      \<and> suffix ''\"'' (rstrip ''fix: bug\<newline>'' [CHR 0x0D, CHR 0x0A]))"
    by (simp add: r)
  from t h1 have a: "extract_subject
      (''Revert \"'' @ ''Revert \"'' @ ''fix: bug'' @ ''\"'' @ ''\"'' @ ''\<newline>'') = ''fix: bug''"
    by blast
  from t h2 have "extract_subject ''fix: bug\<newline>'' = rstrip ''fix: bug\<newline>'' [CHR 0x0D, CHR 0x0A]"
    by blast
  with r a show ?thesis by simp
qed


section \<open>Body validator: properties\<close>

lemma splitlines_Nil_iff: "splitlines s = [] \<longleftrightarrow> s = []"
  by (cases s) (auto split: list.splits)

lemma check_output_prints: "e \<in> set (check_output L) \<Longrightarrow> \<exists>s. e = Print s"
  by (auto simp: check_output_def split: if_splits)

lemma verify_body_empty: "verify_body E [] = (Inl IndexError, [])"
  by (simp add: verify_body_def)

lemma verify_body_bug:
  "body \<noteq> [] \<Longrightarrow> has_bug_line (splitlines body) \<Longrightarrow>
   verify_body E body = (Inr False, check_output (splitlines body) @ [Write_stderr msg_bug])"
  by (simp add: verify_body_def splitlines_Nil_iff Let_def)

lemma verify_body_oserror:
  "body \<noteq> [] \<Longrightarrow> \<not> has_bug_line (splitlines body) \<Longrightarrow> git_stripspace E body = Inl (OSError m) \<Longrightarrow>
   verify_body E body =
     (Inr (is_good (splitlines body)),
      check_output (splitlines body)
      @ [Run stripspace_cmd body, Print (''Warning: unable to invoke git stripspace: '' @ m)])"
  by (simp add: verify_body_def splitlines_Nil_iff Let_def)

lemma verify_body_same:
  "body \<noteq> [] \<Longrightarrow> \<not> has_bug_line (splitlines body) \<Longrightarrow> git_stripspace E body = Inr body \<Longrightarrow>
   verify_body E body =
     (Inr (is_good (splitlines body)), check_output (splitlines body) @ [Run stripspace_cmd body])"
  by (simp add: verify_body_def splitlines_Nil_iff Let_def)

lemma verify_body_changed:
  "body \<noteq> [] \<Longrightarrow> \<not> has_bug_line (splitlines body) \<Longrightarrow> git_stripspace E body = Inr newbody \<Longrightarrow>
   newbody \<noteq> body \<Longrightarrow>
   verify_body E body =
     (Inr False, check_output (splitlines body) @ [Run stripspace_cmd body]
                 @ diff_report E (splitlines body) (splitlines newbody))"
  by (simp add: verify_body_def splitlines_Nil_iff Let_def)

lemma verify_body_other:
  "body \<noteq> [] \<Longrightarrow> \<not> has_bug_line (splitlines body) \<Longrightarrow> git_stripspace E body = Inl ex \<Longrightarrow>
   \<forall>m. ex \<noteq> OSError m \<Longrightarrow>
   verify_body E body = (Inl ex, check_output (splitlines body) @ [Run stripspace_cmd body])"
  by (cases ex) (simp_all add: verify_body_def splitlines_Nil_iff Let_def)

lemma verify_body_not_good:
  assumes ne: "body \<noteq> []" and bad: "\<not> is_good (splitlines body)"
    and caught: "\<forall>ex. git_stripspace E body = Inl ex \<longrightarrow> (\<exists>m. ex = OSError m)"
  shows "fst (verify_body E body) = Inr False"
proof (cases "has_bug_line (splitlines body)")
  case True
  with ne show ?thesis by (simp add: verify_body_bug)
next
  case False
  show ?thesis
  proof (cases "git_stripspace E body")
    case (Inl ex)
    with caught obtain m where "ex = OSError m" by blast
    with Inl ne False bad show ?thesis by (simp add: verify_body_oserror)
  next
    case (Inr newbody)
    with ne False bad show ?thesis
      by (cases "newbody = body") (simp_all add: verify_body_same verify_body_changed)
  qed
qed

lemma verify_body_never_true:
  assumes ne: "body \<noteq> []" and bad: "\<not> is_good (splitlines body)"
  shows "fst (verify_body E body) \<noteq> Inr True"
proof (cases "has_bug_line (splitlines body)")
  case True
  with ne show ?thesis by (simp add: verify_body_bug)
next
  case False
  show ?thesis
  proof (cases "git_stripspace E body")
    case (Inl ex)
    with ne False bad show ?thesis
      by (cases "\<exists>m. ex = OSError m") (auto simp: verify_body_oserror verify_body_other)
  next
    case (Inr newbody)
    with ne False bad show ?thesis
      by (cases "newbody = body") (simp_all add: verify_body_same verify_body_changed)
  qed
qed

lemma check_output_blank:
  "second_line_nonblank L \<Longrightarrow> Print msg_blank_line \<in> set (check_output L)"
  by (simp add: check_output_def)

lemma check_output_long:
  "subject_too_long L \<Longrightarrow> Print msg_too_long \<in> set (check_output L)"
  by (simp add: check_output_def)

lemma check_output_in_verify_body:
  "body \<noteq> [] \<Longrightarrow> set (check_output (splitlines body)) \<subseteq> set (snd (verify_body E body))"
  by (auto simp: verify_body_def splitlines_Nil_iff Let_def split: sum.splits exn.splits)

lemma has_bug_line_iff:
  "has_bug_line L \<longleftrightarrow> (\<exists>line \<in> set L. prefix ''Bug:'' line \<or> prefix ''Ping-Bug:'' line)"
  by (simp add: has_bug_line_def list_ex_iff startswith_def)

lemma is_good_iff:
  "is_good L \<longleftrightarrow>
     \<not> (2 \<le> length L \<and> strip (L ! 1) \<noteq> []) \<and> length (extract_subject (L ! 0)) \<le> 80"
  by (auto simp: is_good_def second_line_nonblank_def subject_too_long_def)

lemma stripspace_newline_idem:
  "stripspace_newline s = Inr t \<Longrightarrow> stripspace_newline t = Inr t"
proof -
  assume "stripspace_newline s = Inr t"
  then have t: "t = rstrip s ''\<newline>'' @ ''\<newline>''" by (simp add: stripspace_newline_def)
  have "rstrip t ''\<newline>'' = rstrip (rstrip s ''\<newline>'') ''\<newline>''"
    unfolding t by (intro rstrip_append) simp
  also have "\<dots> = rstrip s ''\<newline>''"
    using rstrip_last[of s "''\<newline>''"] by (intro rstrip_id) blast
  finally show ?thesis by (simp add: stripspace_newline_def t)
qed

text \<open>
  Claim C2, as amended. For a non-empty body with a line that starts with \<open>Bug:\<close> or
  \<open>Ping-Bug:\<close>, \<open>verify_body\<close> returns failure whatever the blank-line and
  subject-length checks found, never starts the normalization command (so neither its
  warning nor the diff report is printed), and its result and output do not depend on
  the collaborators. What it prints is the output of the two checks, if they failed,
  followed by the guidance on issue references.
\<close>

theorem verify_body_bug_line:
  "body \<noteq> [] \<and> (\<exists>line \<in> set (splitlines body). prefix ''Bug:'' line \<or> prefix ''Ping-Bug:'' line)
   \<longrightarrow> verify_body E body = (Inr False, check_output (splitlines body) @ [Write_stderr msg_bug])
     \<and> (\<forall>cmd input. Run cmd input \<notin> set (snd (verify_body E body)))
     \<and> (\<forall>E'. verify_body E' body = verify_body E body)"
proof
  assume a: "body \<noteq> [] \<and>
    (\<exists>line \<in> set (splitlines body). prefix ''Bug:'' line \<or> prefix ''Ping-Bug:'' line)"
  then have ne: "body \<noteq> []" and bug: "has_bug_line (splitlines body)"
    by (simp_all add: has_bug_line_iff)
  have r: "verify_body E' body =
      (Inr False, check_output (splitlines body) @ [Write_stderr msg_bug])" for E'
    using ne bug by (rule verify_body_bug)
  have "Run cmd input \<notin> set (check_output (splitlines body) @ [Write_stderr msg_bug])"
    for cmd input
    by (auto dest: check_output_prints)
  with r show "verify_body E body = (Inr False, check_output (splitlines body) @ [Write_stderr msg_bug])
     \<and> (\<forall>cmd input. Run cmd input \<notin> set (snd (verify_body E body)))
     \<and> (\<forall>E'. verify_body E' body = verify_body E body)"
    by simp
qed

theorem verify_body_bug_line_witness:
  "verify_body env_ok body_bug = (Inr False, [Print msg_blank_line, Print msg_format, Write_stderr msg_bug])"
proof -
  have h: "body_bug \<noteq> [] \<and>
    (\<exists>line \<in> set (splitlines body_bug). prefix ''Bug:'' line \<or> prefix ''Ping-Bug:'' line)"
    by (simp add: body_bug_def py_linebreak_def)
  have c: "check_output (splitlines body_bug) = [Print msg_blank_line, Print msg_format]"
    by code_simp
  from verify_body_bug_line[of body_bug env_ok] h c show ?thesis by simp
qed

text \<open>
  The body \<open>Bug: 1234\<close> followed by a second line that is not blank: the error about
  the missing blank line and the format guidance are printed before the guidance on
  issue references, so the other diagnostics are not bypassed.
\<close>

theorem verify_body_bug_line_keeps_diagnostics:
  "splitlines body_bug = [''Bug: 1234\<newline>'', ''second line'']
   \<and> prefix ''Bug:'' (splitlines body_bug ! 0)
   \<and> snd (verify_body env_ok body_bug)
       = [Print msg_blank_line, Print msg_format, Write_stderr msg_bug]"
  by code_simp


text \<open>
  Claim C4, as amended. For a non-empty body: if there is a second line that is not
  blank, or if the first line unwrapped by \<open>extract_subject\<close> has more than 80
  characters, \<open>verify_body\<close> never returns true; it returns false whenever the
  normalization command raises nothing but OSError, and the matching diagnostic is
  printed. A body whose first line, without its line end, has 90 characters and is
  not a \<open>Revert "..."\<close> wrapper never passes.
\<close>

theorem verify_body_marks_failing:
  "(body \<noteq> []
      \<and> (2 \<le> length (splitlines body) \<and> strip (splitlines body ! 1) \<noteq> []
          \<or> 80 < length (extract_subject (splitlines body ! 0)))
    \<longrightarrow> fst (verify_body E body) \<noteq> Inr True
      \<and> ((\<forall>ex. git_stripspace E body = Inl ex \<longrightarrow> (\<exists>m. ex = OSError m))
           \<longrightarrow> fst (verify_body E body) = Inr False))
   \<and> (body \<noteq> [] \<and> 2 \<le> length (splitlines body) \<and> strip (splitlines body ! 1) \<noteq> []
    \<longrightarrow> Print msg_blank_line \<in> set (snd (verify_body E body)))
   \<and> (body \<noteq> [] \<and> 80 < length (extract_subject (splitlines body ! 0))
    \<longrightarrow> Print msg_too_long \<in> set (snd (verify_body E body)))
   \<and> (body \<noteq> []
      \<and> length (rstrip (splitlines body ! 0) [CHR 0x0D, CHR 0x0A]) = 90
      \<and> \<not> (prefix ''Revert \"'' (rstrip (splitlines body ! 0) [CHR 0x0D, CHR 0x0A])
           \<and> suffix ''\"'' (rstrip (splitlines body ! 0) [CHR 0x0D, CHR 0x0A]))
    \<longrightarrow> fst (verify_body E body) \<noteq> Inr True)"
proof -
  let ?L = "splitlines body"
  let ?bad = "2 \<le> length ?L \<and> strip (?L ! 1) \<noteq> [] \<or> 80 < length (extract_subject (?L ! 0))"
  have ng: "\<not> is_good ?L" if "?bad"
    using that by (auto simp: is_good_iff)
  have a: "body \<noteq> [] \<and> ?bad \<longrightarrow> fst (verify_body E body) \<noteq> Inr True
      \<and> ((\<forall>ex. git_stripspace E body = Inl ex \<longrightarrow> (\<exists>m. ex = OSError m))
           \<longrightarrow> fst (verify_body E body) = Inr False)"
    using ng verify_body_never_true[of body E] verify_body_not_good[of body E] by blast
  have b: "body \<noteq> [] \<and> 2 \<le> length ?L \<and> strip (?L ! 1) \<noteq> []
      \<longrightarrow> Print msg_blank_line \<in> set (snd (verify_body E body))"
    using check_output_in_verify_body[of body E] check_output_blank[of ?L]
    by (auto simp: second_line_nonblank_def)
  have c: "body \<noteq> [] \<and> 80 < length (extract_subject (?L ! 0))
      \<longrightarrow> Print msg_too_long \<in> set (snd (verify_body E body))"
    using check_output_in_verify_body[of body E] check_output_long[of ?L]
    by (auto simp: subject_too_long_def)
  have d: "fst (verify_body E body) \<noteq> Inr True"
    if ne: "body \<noteq> []"
      and len: "length (rstrip (?L ! 0) [CHR 0x0D, CHR 0x0A]) = 90"
      and nw: "\<not> (prefix ''Revert \"'' (rstrip (?L ! 0) [CHR 0x0D, CHR 0x0A])
           \<and> suffix ''\"'' (rstrip (?L ! 0) [CHR 0x0D, CHR 0x0A]))"
  proof -
    from nw have "extract_subject (?L ! 0) = rstrip (?L ! 0) [CHR 0x0D, CHR 0x0A]"
      using revert_loop_unwrapped[of "rstrip (?L ! 0) [CHR 0x0D, CHR 0x0A]"]
      by (simp add: extract_subject_def revert_prefix_def revert_suffix_def)
    with len have "80 < length (extract_subject (?L ! 0))" by simp
    with ne a show ?thesis by blast
  qed
  from a b c d show ?thesis by blast
qed

theorem verify_body_marks_failing_witness:
  "fst (verify_body env_ok body_two_lines) = Inr False
   \<and> Print msg_blank_line \<in> set (snd (verify_body env_ok body_two_lines))
   \<and> fst (verify_body env_ok body_plain90) = Inr False
   \<and> Print msg_too_long \<in> set (snd (verify_body env_ok body_plain90))"
proof -
  have h1: "body_two_lines \<noteq> [] \<and> 2 \<le> length (splitlines body_two_lines)
      \<and> strip (splitlines body_two_lines ! 1) \<noteq> []"
    by code_simp
  have h2: "body_plain90 \<noteq> [] \<and> 80 < length (extract_subject (splitlines body_plain90 ! 0))"
    by code_simp
  have h3: "\<forall>ex. git_stripspace env_ok b = Inl ex \<longrightarrow> (\<exists>m. ex = OSError m)" for b
    by (simp add: env_ok_def example_env_def stripspace_newline_def)
  from verify_body_marks_failing[of body_two_lines env_ok]
    verify_body_marks_failing[of body_plain90 env_ok] h1 h2 h3
  show ?thesis by blast
qed

text \<open>
  A body whose first line has 90 characters and passes: the revert of a revert of a
  72-character subject.
\<close>

theorem verify_body_revert90_passes:
  "length line_revert90 = 90
   \<and> splitlines body_revert90 = [line_revert90 @ ''\<newline>'']
   \<and> verify_body env_ok body_revert90 = (Inr True, [Run stripspace_cmd body_revert90])"
  by code_simp

text \<open>
  Claim C7. For a non-empty body without a \<open>Bug:\<close> or \<open>Ping-Bug:\<close> line, when the
  normalization command cannot be started (OSError), \<open>verify_body\<close> returns exactly the
  state computed by the blank-line and subject-length checks, and the last thing it
  prints is the warning.
\<close>

theorem verify_body_stripspace_unavailable:
  "body \<noteq> []
   \<and> \<not> (\<exists>line \<in> set (splitlines body). prefix ''Bug:'' line \<or> prefix ''Ping-Bug:'' line)
   \<and> git_stripspace E body = Inl (OSError m)
   \<longrightarrow> fst (verify_body E body)
        = Inr (\<not> (2 \<le> length (splitlines body) \<and> strip (splitlines body ! 1) \<noteq> [])
               \<and> length (extract_subject (splitlines body ! 0)) \<le> 80)
     \<and> snd (verify_body E body)
        = check_output (splitlines body)
          @ [Run stripspace_cmd body,
             Print (''Warning: unable to invoke git stripspace: '' @ m)]"
  using verify_body_oserror[of body E m]
  by (simp add: has_bug_line_iff is_good_iff)

theorem verify_body_stripspace_unavailable_witness:
  "verify_body env_missing body_good
     = (Inr True, [Run stripspace_cmd body_good,
          Print ''Warning: unable to invoke git stripspace: No such file or directory''])
   \<and> fst (verify_body env_missing body_plain90) = Inr False"
proof -
  have g: "git_stripspace env_missing b = Inl (OSError ''No such file or directory'')" for b
    by (simp add: env_missing_def example_env_def stripspace_missing_def)
  have h1: "body_good \<noteq> []
      \<and> \<not> (\<exists>line \<in> set (splitlines body_good). prefix ''Bug:'' line \<or> prefix ''Ping-Bug:'' line)"
    unfolding has_bug_line_iff[symmetric] by code_simp
  have h2: "body_plain90 \<noteq> []
      \<and> \<not> (\<exists>line \<in> set (splitlines body_plain90). prefix ''Bug:'' line \<or> prefix ''Ping-Bug:'' line)"
    unfolding has_bug_line_iff[symmetric] by code_simp
  have v1: "(\<not> (2 \<le> length (splitlines body_good) \<and> strip (splitlines body_good ! 1) \<noteq> [])
               \<and> length (extract_subject (splitlines body_good ! 0)) \<le> 80) = True"
    by code_simp
  have v2: "(\<not> (2 \<le> length (splitlines body_plain90) \<and> strip (splitlines body_plain90 ! 1) \<noteq> [])
               \<and> length (extract_subject (splitlines body_plain90 ! 0)) \<le> 80) = False"
    by code_simp
  have c1: "check_output (splitlines body_good) = []" by code_simp
  from verify_body_stripspace_unavailable[of body_good env_missing "''No such file or directory''"]
    g h1 have "fst (verify_body env_missing body_good) = Inr True
      \<and> snd (verify_body env_missing body_good) = [Run stripspace_cmd body_good,
          Print ''Warning: unable to invoke git stripspace: No such file or directory'']"
    unfolding v1 c1 by simp
  moreover from verify_body_stripspace_unavailable[of body_plain90 env_missing
      "''No such file or directory''"] g h2
  have "fst (verify_body env_missing body_plain90) = Inr False"
    unfolding v2 by blast
  ultimately show ?thesis by (simp add: prod_eq_iff)
qed

text \<open>
  Claim C9. With an idempotent normalization function, a non-empty body that the
  function returns unchanged, whose second line is blank or absent, whose unwrapped
  subject has at most 80 characters and which has no \<open>Bug:\<close> or \<open>Ping-Bug:\<close> line
  passes, and nothing is printed.
\<close>

theorem verify_body_normalized_passes:
  "(\<forall>s t. git_stripspace E s = Inr t \<longrightarrow> git_stripspace E t = Inr t)
   \<and> body \<noteq> []
   \<and> git_stripspace E body = Inr body
   \<and> \<not> (2 \<le> length (splitlines body) \<and> strip (splitlines body ! 1) \<noteq> [])
   \<and> length (extract_subject (splitlines body ! 0)) \<le> 80
   \<and> \<not> (\<exists>line \<in> set (splitlines body). prefix ''Bug:'' line \<or> prefix ''Ping-Bug:'' line)
   \<longrightarrow> verify_body E body = (Inr True, [Run stripspace_cmd body])"
proof
  assume a: "(\<forall>s t. git_stripspace E s = Inr t \<longrightarrow> git_stripspace E t = Inr t)
   \<and> body \<noteq> []
   \<and> git_stripspace E body = Inr body
   \<and> \<not> (2 \<le> length (splitlines body) \<and> strip (splitlines body ! 1) \<noteq> [])
   \<and> length (extract_subject (splitlines body ! 0)) \<le> 80
   \<and> \<not> (\<exists>line \<in> set (splitlines body). prefix ''Bug:'' line \<or> prefix ''Ping-Bug:'' line)"
  then have ne: "body \<noteq> []" and nb: "\<not> has_bug_line (splitlines body)"
    and fx: "git_stripspace E body = Inr body" and good: "is_good (splitlines body)"
    by (simp_all add: has_bug_line_iff is_good_iff)
  from good have "check_output (splitlines body) = []"
    by (simp add: check_output_def is_good_def)
  with verify_body_same[OF ne nb fx] good
  show "verify_body E body = (Inr True, [Run stripspace_cmd body])" by simp
qed

theorem verify_body_normalized_passes_witness:
  "verify_body env_ok body_good = (Inr True, [Run stripspace_cmd body_good])"
proof -
  have idem: "\<forall>s t. git_stripspace env_ok s = Inr t \<longrightarrow> git_stripspace env_ok t = Inr t"
    using stripspace_newline_idem by (simp add: env_ok_def example_env_def)
  have fx: "git_stripspace env_ok body_good = Inr body_good"
    by (simp add: env_ok_def example_env_def stripspace_newline_def rstrip_def body_good_def)
  have h: "body_good \<noteq> []
   \<and> \<not> (2 \<le> length (splitlines body_good) \<and> strip (splitlines body_good ! 1) \<noteq> [])
   \<and> length (extract_subject (splitlines body_good ! 0)) \<le> 80"
    by code_simp
  have nb: "\<not> (\<exists>line \<in> set (splitlines body_good). prefix ''Bug:'' line \<or> prefix ''Ping-Bug:'' line)"
    unfolding has_bug_line_iff[symmetric] by code_simp
  from verify_body_normalized_passes[of env_ok body_good] idem fx h nb
  show ?thesis by blast
qed

section \<open>Commit fetcher: properties\<close>

lemma split_max_nonempty: "split_max s c n \<noteq> []"
  by (induction s c n rule: split_max.induct) (auto simp: Let_def)

lemma split_max_no_sep: "c \<notin> set a \<Longrightarrow> split_max a c n = [a]"
  by (induction a c n rule: split_max.induct) (auto simp: Let_def)

lemma split_max_append_sep:
  "c \<notin> set a \<Longrightarrow> split_max (a @ c # r) c (Suc n) = a # split_max r c n"
  by (induction a) (auto simp: Let_def)

lemma split_max_fields:
  "c \<notin> set a \<Longrightarrow> c \<notin> set n \<Longrightarrow> c \<notin> set e \<Longrightarrow>
   split_max (a @ c # n @ c # e @ c # b) c 3 = [a, n, e, b]"
  by (simp add: numeral_3_eq_3 split_max_append_sep)

lemma split_max_decomp:
  "split_max s c (Suc k) = x # y # ys \<Longrightarrow>
   \<exists>r. s = x @ c # r \<and> c \<notin> set x \<and> split_max r c k = y # ys"
proof (induction s arbitrary: x)
  case Nil
  then show ?case by simp
next
  case (Cons h t)
  show ?case
  proof (cases "h = c")
    case True
    with Cons.prems show ?thesis by auto
  next
    case False
    let ?r0 = "split_max t c (Suc k)"
    from False Cons.prems have x: "x = h # hd ?r0" and tl: "tl ?r0 = y # ys"
      by (simp_all add: Let_def)
    from tl split_max_nonempty[of t c "Suc k"] have "?r0 = hd ?r0 # y # ys"
      by (cases ?r0) simp_all
    from Cons.IH[OF this] obtain r where
      "t = hd ?r0 @ c # r" "c \<notin> set (hd ?r0)" "split_max r c k = y # ys" by blast
    with x False show ?thesis by auto
  qed
qed

lemma split_max_fields_conv:
  assumes "split_max s c 3 = [a, n, e, b]"
  shows "s = a @ c # n @ c # e @ c # b \<and> c \<notin> set a \<and> c \<notin> set n \<and> c \<notin> set e"
proof -
  from assms have "split_max s c (Suc 2) = a # n # [e, b]" by (simp add: numeral_3_eq_3)
  from split_max_decomp[OF this] obtain r1 where
    r1: "s = a @ c # r1" "c \<notin> set a" "split_max r1 c 2 = [n, e, b]" by blast
  from r1(3) have "split_max r1 c (Suc 1) = n # e # [b]" by (simp add: numeral_2_eq_2)
  from split_max_decomp[OF this] obtain r2 where
    r2: "r1 = n @ c # r2" "c \<notin> set n" "split_max r2 c 1 = [e, b]" by blast
  from r2(3) have "split_max r2 c (Suc 0) = e # b # []" by simp
  from split_max_decomp[OF this] obtain r3 where
    r3: "r2 = e @ c # r3" "c \<notin> set e" "split_max r3 c 0 = [b]" by blast
  from r3(3) have "r3 = b" by simp
  with r1 r2 r3 show ?thesis by simp
qed

lemma parse_output_iff:
  "parse_output output = Inr ci \<longleftrightarrow>
     (if suffix ''\<newline>\<newline>'' output then butlast output else output)
       = ci_abbrev ci @ ''\<newline>'' @ ci_author_name ci @ ''\<newline>''
         @ ci_author_email ci @ ''\<newline>'' @ ci_body ci
     \<and> CHR ''\<newline>'' \<notin> set (ci_abbrev ci)
     \<and> CHR ''\<newline>'' \<notin> set (ci_author_name ci)
     \<and> CHR ''\<newline>'' \<notin> set (ci_author_email ci)"
  (is "?L \<longleftrightarrow> ?R")
proof
  let ?s = "if suffix ''\<newline>\<newline>'' output then butlast output else output"
  assume ?L
  then obtain a n e b where sp: "split_max ?s (CHR ''\<newline>'') 3 = [a, n, e, b]"
    and ci: "ci = \<lparr>ci_abbrev = a, ci_author_name = n, ci_author_email = e, ci_body = b\<rparr>"
    by (auto simp: parse_output_def endswith_def Let_def split: list.splits if_splits)
  from split_max_fields_conv[OF sp] ci show ?R by simp
next
  let ?s = "if suffix ''\<newline>\<newline>'' output then butlast output else output"
  assume r: ?R
  then have "split_max ?s (CHR ''\<newline>'') 3
      = [ci_abbrev ci, ci_author_name ci, ci_author_email ci, ci_body ci]"
    using split_max_fields[of "CHR ''\<newline>''" "ci_abbrev ci" "ci_author_name ci"
        "ci_author_email ci" "ci_body ci"]
    by simp
  then show ?L by (simp add: parse_output_def endswith_def Let_def)
qed

lemma parse_output_error: "parse_output output = Inl ex \<Longrightarrow> ex = ValueError"
  by (auto simp: parse_output_def Let_def split: list.splits)

lemma parse_output_query:
  assumes "CHR ''\<newline>'' \<notin> set a" "CHR ''\<newline>'' \<notin> set n" "CHR ''\<newline>'' \<notin> set e"
  shows "parse_output (a @ ''\<newline>'' @ n @ ''\<newline>'' @ e @ ''\<newline>'' @ b @ ''\<newline>'')
    = Inr \<lparr>ci_abbrev = a, ci_author_name = n, ci_author_email = e,
           ci_body = (if b = [] \<or> last b = CHR ''\<newline>'' then b else b @ ''\<newline>'')\<rparr>"
proof -
  let ?out = "a @ ''\<newline>'' @ n @ ''\<newline>'' @ e @ ''\<newline>'' @ b @ ''\<newline>''"
  let ?body = "if b = [] \<or> last b = CHR ''\<newline>'' then b else b @ ''\<newline>''"
  have st: "(if suffix ''\<newline>\<newline>'' ?out then butlast ?out else ?out)
      = a @ ''\<newline>'' @ n @ ''\<newline>'' @ e @ ''\<newline>'' @ ?body"
  proof (cases b rule: rev_cases)
    case Nil
    then show ?thesis by (simp add: suffix_to_prefix butlast_append)
  next
    case (snoc b' x)
    then show ?thesis by (simp add: suffix_to_prefix butlast_append)
  qed
  show ?thesis
    unfolding parse_output_iff commit_info.select_convs st
    using assms by (simp only: simp_thms)
qed


text \<open>
  Claim C8. A query output is the abbreviated id, the author name and the author
  email, each free of newlines and ended by one, then the raw message and the newline
  that the query adds. On such an output \<open>parse_output\<close> returns the four fields: the
  body is everything after the third newline, embedded newlines included, less
  exactly one newline when the output ends with two (the raw message is empty or ends
  with a newline). More generally parsing succeeds exactly when the output, less its
  last character if it ends with two newlines, is three newline-free fields and a
  body separated by newlines. \<open>fetch_commit\<close> parses what the query printed.
\<close>

theorem parse_output_fields:
  "(CHR ''\<newline>'' \<notin> set a \<and> CHR ''\<newline>'' \<notin> set n \<and> CHR ''\<newline>'' \<notin> set e
    \<longrightarrow> parse_output (a @ ''\<newline>'' @ n @ ''\<newline>'' @ e @ ''\<newline>'' @ b @ ''\<newline>'')
        = Inr \<lparr>ci_abbrev = a, ci_author_name = n, ci_author_email = e,
               ci_body = (if b = [] \<or> last b = CHR ''\<newline>'' then b else b @ ''\<newline>'')\<rparr>)
   \<and> (parse_output output = Inr ci \<longleftrightarrow>
        (if suffix ''\<newline>\<newline>'' output then butlast output else output)
          = ci_abbrev ci @ ''\<newline>'' @ ci_author_name ci @ ''\<newline>''
            @ ci_author_email ci @ ''\<newline>'' @ ci_body ci
        \<and> CHR ''\<newline>'' \<notin> set (ci_abbrev ci)
        \<and> CHR ''\<newline>'' \<notin> set (ci_author_name ci)
        \<and> CHR ''\<newline>'' \<notin> set (ci_author_email ci))
   \<and> (git_show E (show_cmd commit) = Inr output
    \<longrightarrow> fetch_commit E commit = (parse_output output, [Run (show_cmd commit) []]))"
proof -
  have f: "git_show E (show_cmd commit) = Inr output
    \<longrightarrow> fetch_commit E commit = (parse_output output, [Run (show_cmd commit) []])"
    by (simp add: fetch_commit_def)
  from parse_output_query[of a n e b] parse_output_iff[of "output" ci] f
  show ?thesis by blast
qed

theorem parse_output_fields_witness:
  "parse_output ''abc1234\<newline>jdoe\<newline>dev@realmail.org\<newline>fix: a bug\<newline>\<newline>A longer description.\<newline>\<newline>''
     = Inr \<lparr>ci_abbrev = ''abc1234'', ci_author_name = ''jdoe'',
            ci_author_email = ''dev@realmail.org'',
            ci_body = ''fix: a bug\<newline>\<newline>A longer description.\<newline>''\<rparr>
   \<and> fst (fetch_commit env_ok ''HEAD'')
     = Inr \<lparr>ci_abbrev = ''abc1234'', ci_author_name = ''jdoe'',
            ci_author_email = ''dev@realmail.org'', ci_body = ''fix: a bug\<newline>''\<rparr>"
proof -
  have g: "git_show env_ok (show_cmd ''HEAD'') = Inr out_jdoe"
    by (simp add: env_ok_def example_env_def show_fixed_def)
  have o: "out_jdoe = ''abc1234'' @ ''\<newline>'' @ ''jdoe'' @ ''\<newline>'' @ ''dev@realmail.org''
      @ ''\<newline>'' @ ''fix: a bug\<newline>'' @ ''\<newline>''"
    by (simp add: out_jdoe_def)
  have h: "CHR ''\<newline>'' \<notin> set ''abc1234'' \<and> CHR ''\<newline>'' \<notin> set ''jdoe''
      \<and> CHR ''\<newline>'' \<notin> set ''dev@realmail.org''"
    by simp
  from parse_output_fields[of "''abc1234''" "''jdoe''" "''dev@realmail.org''"
      "''fix: a bug\<newline>\<newline>A longer description.\<newline>''"] h
  have 1: "parse_output (''abc1234'' @ ''\<newline>'' @ ''jdoe'' @ ''\<newline>'' @ ''dev@realmail.org''
      @ ''\<newline>'' @ ''fix: a bug\<newline>\<newline>A longer description.\<newline>'' @ ''\<newline>'')
     = Inr \<lparr>ci_abbrev = ''abc1234'', ci_author_name = ''jdoe'',
            ci_author_email = ''dev@realmail.org'',
            ci_body = ''fix: a bug\<newline>\<newline>A longer description.\<newline>''\<rparr>"
    by simp
  from parse_output_fields[of "''abc1234''" "''jdoe''" "''dev@realmail.org''"
      "''fix: a bug\<newline>''" _ _ env_ok "''HEAD''"] h
  have 2: "parse_output out_jdoe
     = Inr \<lparr>ci_abbrev = ''abc1234'', ci_author_name = ''jdoe'',
            ci_author_email = ''dev@realmail.org'', ci_body = ''fix: a bug\<newline>''\<rparr>"
    unfolding o by simp
  from parse_output_fields[of _ _ _ _ out_jdoe _ env_ok "''HEAD''"] g
  have "fst (fetch_commit env_ok ''HEAD'') = parse_output out_jdoe" by simp
  with 1 2 show ?thesis by simp
qed

section \<open>Driver: properties\<close>

lemma main_fetch_failed:
  "git_show E (show_cmd (commit_arg arg)) = Inl ex \<Longrightarrow>
   main E arg = (Inl ex, [Run (show_cmd (commit_arg arg)) []])"
  by (simp add: main_def fetch_commit_def)

lemma main_parse_failed:
  "git_show E (show_cmd (commit_arg arg)) = Inr output \<Longrightarrow> parse_output output = Inl ex \<Longrightarrow>
   main E arg = (Inl ex, [Run (show_cmd (commit_arg arg)) []])"
  by (simp add: main_def fetch_commit_def)

lemma main_fetched:
  assumes "git_show E (show_cmd (commit_arg arg)) = Inr output"
    and "parse_output output = Inr ci"
    and "verify_body E (ci_body ci) = (r, out_b)"
  shows "fst (main E arg) =
      (case r of Inl ex \<Rightarrow> Inl ex
       | Inr body_ok \<Rightarrow>
           Inr (if fst (verify_name (ci_author_name ci))
                   \<and> verify_email (ci_author_email ci) \<and> body_ok then 0 else 1))"
    and "snd (main E arg) =
       [Run (show_cmd (commit_arg arg)) []]
       @ (if file_is_py E
          then [Print (''Checking commit: '' @ ci_abbrev ci @ '' ''
                       @ hd (split_max (ci_body ci) (CHR ''\<newline>'') 1))]
          else [])
       @ snd (verify_name (ci_author_name ci))
       @ (if \<not> fst (verify_name (ci_author_name ci))
          then [Print (''Disallowed author name: '' @ ci_author_name ci)] else [])
       @ (if \<not> verify_email (ci_author_email ci)
          then [Print (''Disallowed author email address: '' @ ci_author_email ci)] else [])
       @ (if \<not> fst (verify_name (ci_author_name ci)) \<or> \<not> verify_email (ci_author_email ci)
          then print_git_user_instructions else [])
       @ out_b"
  using assms
  by (auto simp: main_def fetch_commit_def Let_def split: sum.splits)


lemma verify_body_index_error:
  assumes ne: "body \<noteq> []" and ns: "git_stripspace E body \<noteq> Inl IndexError"
  shows "fst (verify_body E body) \<noteq> Inl IndexError"
proof (cases "has_bug_line (splitlines body)")
  case True
  with ne show ?thesis by (simp add: verify_body_bug)
next
  case False
  show ?thesis
  proof (cases "git_stripspace E body")
    case (Inl ex)
    with ne False ns show ?thesis
      by (cases "\<exists>m. ex = OSError m") (auto simp: verify_body_oserror verify_body_other)
  next
    case (Inr newbody)
    with ne False show ?thesis
      by (cases "newbody = body") (simp_all add: verify_body_same verify_body_changed)
  qed
qed

lemma run_script_returns:
  "fst (main E arg) = Inr code \<Longrightarrow> run_script E arg = (Exit code, snd (main E arg))"
  by (cases "main E arg") (simp add: run_script_def)

lemma run_script_interrupt:
  "fst (main E arg) = Inl KeyboardInterrupt \<Longrightarrow> run_script E arg = (Exit 130, snd (main E arg))"
  by (cases "main E arg") (simp add: run_script_def)

lemma run_script_index_error:
  "fst (main E arg) = Inl IndexError \<Longrightarrow> run_script E arg = (Traceback IndexError, snd (main E arg))"
  by (cases "main E arg") (simp add: run_script_def)

text \<open>
  Claim C10. On the empty string \<open>splitlines\<close> returns the empty list and
  \<open>verify_body\<close> raises IndexError before anything is printed; on a non-empty body an
  IndexError can only be one that the collaborator raised. The driver passes the body
  on unchecked: when the fetched commit has an empty body, \<open>main\<close> raises IndexError
  and the script ends with a traceback. The output of the query for a commit with an
  empty message parses to such a commit.
\<close>

theorem verify_body_empty_body:
  "splitlines [] = []
   \<and> verify_body E [] = (Inl IndexError, [])
   \<and> (body \<noteq> [] \<and> git_stripspace E body \<noteq> Inl IndexError
      \<longrightarrow> fst (verify_body E body) \<noteq> Inl IndexError)
   \<and> (git_show E (show_cmd (commit_arg arg)) = Inr output
      \<and> parse_output output = Inr ci \<and> ci_body ci = []
      \<longrightarrow> fst (main E arg) = Inl IndexError
        \<and> fst (run_script E arg) = Traceback IndexError)
   \<and> parse_output out_empty_body
       = Inr \<lparr>ci_abbrev = ''abc1234'', ci_author_name = ''Jane Doe'',
              ci_author_email = ''dev@realmail.org'', ci_body = []\<rparr>"
proof -
  have m: "fst (main E arg) = Inl IndexError \<and> fst (run_script E arg) = Traceback IndexError"
    if g: "git_show E (show_cmd (commit_arg arg)) = Inr output"
      and p: "parse_output output = Inr ci" and b: "ci_body ci = []"
  proof -
    have "verify_body E (ci_body ci) = (Inl IndexError, [])"
      by (simp add: b verify_body_empty)
    from main_fetched(1)[OF g p this] have "fst (main E arg) = Inl IndexError" by simp
    then show ?thesis by (simp add: run_script_index_error)
  qed
  have e: "parse_output out_empty_body
       = Inr \<lparr>ci_abbrev = ''abc1234'', ci_author_name = ''Jane Doe'',
              ci_author_email = ''dev@realmail.org'', ci_body = []\<rparr>"
    by code_simp
  from m e verify_body_empty[of E] verify_body_index_error[of body E]
  show ?thesis by auto
qed

theorem verify_body_empty_body_witness:
  "run_script env_empty_body None
     = (Traceback IndexError,
        [Run (show_cmd ''HEAD'') [], Print ''Checking commit: abc1234 ''])"
proof -
  have g: "git_show env_empty_body (show_cmd (commit_arg None)) = Inr out_empty_body"
    by (simp add: env_empty_body_def example_env_def show_fixed_def)
  note t = verify_body_empty_body[of env_empty_body _ None out_empty_body
      "\<lparr>ci_abbrev = ''abc1234'', ci_author_name = ''Jane Doe'',
        ci_author_email = ''dev@realmail.org'', ci_body = []\<rparr>"]
  from t g have "fst (run_script env_empty_body None) = Traceback IndexError" by simp
  moreover have "snd (run_script env_empty_body None)
      = [Run (show_cmd ''HEAD'') [], Print ''Checking commit: abc1234 '']"
    by code_simp
  ultimately show ?thesis by (simp add: prod_eq_iff)
qed

lemma verify_body_returns:
  assumes ne: "body \<noteq> []"
    and caught: "has_bug_line (splitlines body)
       \<or> (\<forall>ex. git_stripspace E body = Inl ex \<longrightarrow> (\<exists>m. ex = OSError m))"
  shows "\<exists>body_ok. fst (verify_body E body) = Inr body_ok"
proof (cases "has_bug_line (splitlines body)")
  case True
  with ne have "fst (verify_body E body) = Inr False" by (simp add: verify_body_bug)
  then show ?thesis by blast
next
  case False
  show ?thesis
  proof (cases "git_stripspace E body")
    case (Inl ex)
    with caught False obtain m where "ex = OSError m" by blast
    with Inl ne False have "fst (verify_body E body) = Inr (is_good (splitlines body))"
      by (simp add: verify_body_oserror)
    then show ?thesis by blast
  next
    case (Inr newbody)
    with ne False have "fst (verify_body E body)
        = Inr (if newbody = body then is_good (splitlines body) else False)"
      by (cases "newbody = body") (simp_all add: verify_body_same verify_body_changed)
    then show ?thesis by blast
  qed
qed

text \<open>
  Claim C3, as amended. When the query succeeds and its output parses into a commit
  whose message is not empty, and the normalization command, where it is called,
  raises nothing but OSError, the body validator returns and \<open>main\<close> returns 0 if the
  name, email and body validators all pass and 1 otherwise. All three are run: the
  output of \<open>main\<close> is the query, the line naming the commit, the output of
  \<open>verify_name\<close>, the \<open>Disallowed\<close> line of each of the two checks that failed, the
  instructions printed by the driver itself exactly when the name or the email check
  failed, and the output of \<open>verify_body\<close>. A query that fails ends the script with the
  return code of the query, and KeyboardInterrupt ends it with 130.
\<close>

theorem main_exit_status:
  "(git_show E (show_cmd (commit_arg arg)) = Inr output
      \<and> parse_output output = Inr ci
      \<and> ci_body ci \<noteq> []
      \<and> ((\<exists>line \<in> set (splitlines (ci_body ci)).
              prefix ''Bug:'' line \<or> prefix ''Ping-Bug:'' line)
          \<or> (\<forall>ex. git_stripspace E (ci_body ci) = Inl ex \<longrightarrow> (\<exists>m. ex = OSError m)))
    \<longrightarrow> (\<exists>body_ok. fst (verify_body E (ci_body ci)) = Inr body_ok)
      \<and> fst (main E arg)
          = Inr (if fst (verify_name (ci_author_name ci))
                    \<and> verify_email (ci_author_email ci)
                    \<and> fst (verify_body E (ci_body ci)) = Inr True then 0 else 1)
      \<and> fst (run_script E arg)
          = Exit (if fst (verify_name (ci_author_name ci))
                     \<and> verify_email (ci_author_email ci)
                     \<and> fst (verify_body E (ci_body ci)) = Inr True then 0 else 1)
      \<and> snd (main E arg) =
          [Run (show_cmd (commit_arg arg)) []]
          @ (if file_is_py E
             then [Print (''Checking commit: '' @ ci_abbrev ci @ '' ''
                          @ hd (split_max (ci_body ci) (CHR ''\<newline>'') 1))]
             else [])
          @ snd (verify_name (ci_author_name ci))
          @ (if \<not> fst (verify_name (ci_author_name ci))
             then [Print (''Disallowed author name: '' @ ci_author_name ci)] else [])
          @ (if \<not> verify_email (ci_author_email ci)
             then [Print (''Disallowed author email address: '' @ ci_author_email ci)]
             else [])
          @ (if \<not> fst (verify_name (ci_author_name ci))
                \<or> \<not> verify_email (ci_author_email ci)
             then print_git_user_instructions else [])
          @ snd (verify_body E (ci_body ci)))
   \<and> (git_show E (show_cmd (commit_arg arg)) = Inl (CalledProcessError rc txt)
    \<longrightarrow> run_script E arg
          = (Exit rc, [Run (show_cmd (commit_arg arg)) [], Print (''\<newline>'' @ txt)]))
   \<and> (git_show E (show_cmd (commit_arg arg)) = Inl KeyboardInterrupt
    \<longrightarrow> run_script E arg = (Exit 130, [Run (show_cmd (commit_arg arg)) []]))
   \<and> (fst (main E arg) = Inl KeyboardInterrupt \<longrightarrow> fst (run_script E arg) = Exit 130)"
proof -
  let ?vb = "verify_body E (ci_body ci)"
  let ?code = "if fst (verify_name (ci_author_name ci))
                    \<and> verify_email (ci_author_email ci)
                    \<and> fst ?vb = Inr True then 0 else 1 :: int"
  have a: "(\<exists>body_ok. fst ?vb = Inr body_ok)
      \<and> fst (main E arg) = Inr ?code \<and> fst (run_script E arg) = Exit ?code
      \<and> snd (main E arg) =
          [Run (show_cmd (commit_arg arg)) []]
          @ (if file_is_py E
             then [Print (''Checking commit: '' @ ci_abbrev ci @ '' ''
                          @ hd (split_max (ci_body ci) (CHR ''\<newline>'') 1))]
             else [])
          @ snd (verify_name (ci_author_name ci))
          @ (if \<not> fst (verify_name (ci_author_name ci))
             then [Print (''Disallowed author name: '' @ ci_author_name ci)] else [])
          @ (if \<not> verify_email (ci_author_email ci)
             then [Print (''Disallowed author email address: '' @ ci_author_email ci)]
             else [])
          @ (if \<not> fst (verify_name (ci_author_name ci))
                \<or> \<not> verify_email (ci_author_email ci)
             then print_git_user_instructions else [])
          @ snd ?vb"
    if g: "git_show E (show_cmd (commit_arg arg)) = Inr output"
      and p: "parse_output output = Inr ci"
      and ne: "ci_body ci \<noteq> []"
      and caught: "(\<exists>line \<in> set (splitlines (ci_body ci)).
              prefix ''Bug:'' line \<or> prefix ''Ping-Bug:'' line)
          \<or> (\<forall>ex. git_stripspace E (ci_body ci) = Inl ex \<longrightarrow> (\<exists>m. ex = OSError m))"
  proof -
    from caught have "has_bug_line (splitlines (ci_body ci))
        \<or> (\<forall>ex. git_stripspace E (ci_body ci) = Inl ex \<longrightarrow> (\<exists>m. ex = OSError m))"
      by (simp add: has_bug_line_iff)
    from verify_body_returns[OF ne this] obtain body_ok where r: "fst ?vb = Inr body_ok"
      by blast
    then have v: "?vb = (Inr body_ok, snd ?vb)" by (simp add: prod_eq_iff)
    from main_fetched(1)[OF g p v] r have 1: "fst (main E arg) = Inr ?code" by simp
    from run_script_returns[OF 1] have 2: "fst (run_script E arg) = Exit ?code" by simp
    from r 1 2 main_fetched(2)[OF g p v] show ?thesis by blast
  qed
  have b: "run_script E arg
          = (Exit rc, [Run (show_cmd (commit_arg arg)) [], Print (''\<newline>'' @ txt)])"
    if "git_show E (show_cmd (commit_arg arg)) = Inl (CalledProcessError rc txt)"
    using main_fetch_failed[OF that] by (simp add: run_script_def)
  have c: "run_script E arg = (Exit 130, [Run (show_cmd (commit_arg arg)) []])"
    if "git_show E (show_cmd (commit_arg arg)) = Inl KeyboardInterrupt"
    using main_fetch_failed[OF that] by (simp add: run_script_def)
  have d: "fst (main E arg) = Inl KeyboardInterrupt \<longrightarrow> fst (run_script E arg) = Exit 130"
    by (simp add: run_script_interrupt)
  from a b c d show ?thesis by blast
qed

theorem main_exit_status_witness:
  "fst (run_script env_root None) = Exit 1
   \<and> fst (run_script env_ok None) = Exit 0
   \<and> fst (run_script env_bad_commit None) = Exit 128
   \<and> fst (run_script env_interrupt_show None) = Exit 130
   \<and> fst (run_script env_interrupt_stripspace None) = Exit 130"
proof -
  have ca: "\<forall>ex. stripspace_newline b = Inl ex \<longrightarrow> (\<exists>m. ex = OSError m)" for b
    by (simp add: stripspace_newline_def)
  have g1: "git_show env_root (show_cmd (commit_arg None)) = Inr out_root"
    by (simp add: env_root_def example_env_def show_fixed_def)
  have s1: "git_stripspace env_root = stripspace_newline"
    by (simp add: env_root_def example_env_def)
  have p1: "parse_output out_root
      = Inr \<lparr>ci_abbrev = ''abc1234'', ci_author_name = ''root'',
             ci_author_email = ''a@b.local'', ci_body = ''fix: a bug\<newline>''\<rparr>"
    by code_simp
  have n1: "fst (verify_name ''root'') = False" by code_simp
  from main_exit_status[of env_root None out_root
      "\<lparr>ci_abbrev = ''abc1234'', ci_author_name = ''root'',
        ci_author_email = ''a@b.local'', ci_body = ''fix: a bug\<newline>''\<rparr>"] g1 p1 n1 ca s1
  have r1: "fst (run_script env_root None) = Exit 1" by simp
  have g2: "git_show env_ok (show_cmd (commit_arg None)) = Inr out_jdoe"
    by (simp add: env_ok_def example_env_def show_fixed_def)
  have s2: "git_stripspace env_ok = stripspace_newline"
    by (simp add: env_ok_def example_env_def)
  have p2: "parse_output out_jdoe
      = Inr \<lparr>ci_abbrev = ''abc1234'', ci_author_name = ''jdoe'',
             ci_author_email = ''dev@realmail.org'', ci_body = ''fix: a bug\<newline>''\<rparr>"
    by code_simp
  have v2: "fst (verify_body env_ok ''fix: a bug\<newline>'') = Inr True"
    by code_simp
  have n2: "fst (verify_name ''jdoe'') = True" by code_simp
  have e2: "verify_email ''dev@realmail.org'' = True" by code_simp
  from main_exit_status[of env_ok None out_jdoe
      "\<lparr>ci_abbrev = ''abc1234'', ci_author_name = ''jdoe'',
        ci_author_email = ''dev@realmail.org'', ci_body = ''fix: a bug\<newline>''\<rparr>"]
    g2 p2 v2 n2 e2 ca s2
  have r2: "fst (run_script env_ok None) = Exit 0" by simp
  have g3: "git_show env_bad_commit (show_cmd (commit_arg None))
      = Inl (CalledProcessError 128 ''Command returned non-zero exit status 128.'')"
    by (simp add: env_bad_commit_def example_env_def show_raises_def)
  from main_exit_status[of env_bad_commit None _ _ 128
      "''Command returned non-zero exit status 128.''"] g3
  have r3: "fst (run_script env_bad_commit None) = Exit 128" by simp
  have g4: "git_show env_interrupt_show (show_cmd (commit_arg None)) = Inl KeyboardInterrupt"
    by (simp add: env_interrupt_show_def example_env_def show_raises_def)
  from main_exit_status[of env_interrupt_show None] g4
  have r4: "fst (run_script env_interrupt_show None) = Exit 130" by simp
  have m5: "fst (main env_interrupt_stripspace None) = Inl KeyboardInterrupt"
    by code_simp
  from main_exit_status[of env_interrupt_stripspace None] m5
  have r5: "fst (run_script env_interrupt_stripspace None) = Exit 130" by blast
  from r1 r2 r3 r4 r5 show ?thesis by blast
qed

text \<open>
  Two commits on which the claim as first stated fails. The commit by \<open>jdoe\<close>: the
  name, the email and the body pass and \<open>main\<close> returns 0, yet the instructions are
  printed, by the warning of \<open>verify_name\<close> about the missing space. The commit by
  \<open>root\<close> with a local address and an empty message: the name and the email fail, and
  \<open>main\<close> does not return 1 but raises IndexError in the body validator.
\<close>

theorem main_instructions_without_failure:
  "fst (fetch_commit env_ok (commit_arg None))
     = Inr \<lparr>ci_abbrev = ''abc1234'', ci_author_name = ''jdoe'',
            ci_author_email = ''dev@realmail.org'', ci_body = ''fix: a bug\<newline>''\<rparr>
   \<and> fst (verify_name ''jdoe'')
   \<and> verify_email ''dev@realmail.org''
   \<and> fst (verify_body env_ok ''fix: a bug\<newline>'') = Inr True
   \<and> fst (main env_ok None) = Inr 0
   \<and> sublist print_git_user_instructions (snd (main env_ok None))
   \<and> fst (fetch_commit env_root_empty (commit_arg None))
     = Inr \<lparr>ci_abbrev = ''abc1234'', ci_author_name = ''root'',
            ci_author_email = ''a@b.local'', ci_body = []\<rparr>
   \<and> \<not> fst (verify_name ''root'')
   \<and> \<not> verify_email ''a@b.local''
   \<and> fst (main env_root_empty None) = Inl IndexError
   \<and> fst (run_script env_root_empty None) = Traceback IndexError"
  by code_simp

end
